theory Spec2Isabelle
  imports
    Complex_Main
    "HOL-Library.Char_ord"
    "HOL-Library.List_Lexorder"
    "HOL-Library.Option_ord"
    "HOL-Library.Product_Lexorder"
    "HOL-Library.Sublist"
    "HOL-Library.Multiset"
begin

section \<open>The data model of \<open>preprocessor.py\<close>\<close>

text \<open>
  A calendar date is the triple (year, month, day). The lexicographic order of triples
  is the chronological order, which is how Python's \<open>date\<close> and the Date column
  compare.

  The class reads a column name as a date in two places, with two library functions:
  \<open>datetime.strptime\<close> in \<open>merge_new_data_with_preprocessed_data\<close> and the cast
  of a string column to Date in \<open>prepare_raw_csv\<close>. Both are parameters of the model,
  \<open>strptime\<close> and \<open>cast_date\<close>, of type \<open>string \<Rightarrow> date option\<close> with \<open>None\<close>
  for a string that is rejected; the theorems hold for every such pair of functions.
\<close>

type_synonym date = "nat \<times> nat \<times> nat"

text \<open>
  The wide table, as \<open>pl.read_csv\<close> returns it: the header in file order, and one
  record per row. The three identifier cells are nullable strings (an empty CSV field
  is read as null); \<open>obs r c\<close> is the cell of row \<open>r\<close> in the column named \<open>c\<close>,
  \<open>None\<close> being a null cell. Observation cells are taken at the type \<open>'v\<close> they
  have as Float64, so the cast of \<open>y\<close> to Float64 leaves them as they are.
\<close>

record 'v wide_row =
  Client :: "string option"
  Warehouse :: "string option"
  Product :: "string option"
  obs :: "string \<Rightarrow> 'v option"

record 'v wide_df =
  columns :: "string list"
  rows :: "'v wide_row list"

text \<open>
  The long table has the columns \<open>ds, y, unique_id, Client, Warehouse, Product\<close>
  (the fields \<open>lClient\<close>, \<open>lWarehouse\<close>, \<open>lProduct\<close> are the last three).
  Every column of a data frame is nullable. After \<open>unpivot\<close> the column \<open>ds\<close>
  holds column names (\<open>'d\<close> is \<open>string\<close>); after the cast it holds dates.
\<close>

record ('d, 'v) long_row =
  ds :: "'d option"
  y :: "'v option"
  unique_id :: "string option"
  lClient :: "string option"
  lWarehouse :: "string option"
  lProduct :: "string option"

type_synonym 'v long_df = "(date, 'v) long_row list"

datatype error =
  FileNotFoundError
  | ColumnNotFoundError
  | ValueError string
  | InvalidOperationError string

datatype notice =
  All_dates_are_overlapping
  | Successfully_merged string

text \<open>
  The file system the class works on: directory listings for \<open>os.listdir\<close>, the CSV
  files and the parquet files, each by path.
\<close>

record 'v fs =
  listdir :: "string \<Rightarrow> string list option"
  csv_files :: "string \<Rightarrow> 'v wide_df option"
  parquet_files :: "string \<Rightarrow> 'v long_df option"

record data_processor =
  file_path :: string
  file_name :: string
  preprocessed_data_file_path :: string

definition DataProcessor :: "string \<Rightarrow> string \<Rightarrow> data_processor" where
  "DataProcessor fp fn =
     \<lparr>file_path = fp, file_name = fn,
      preprocessed_data_file_path = ''data/preprocessed/'' @ fn @ ''.parquet''\<rparr>"

section \<open>Data frame operations\<close>

text \<open>
  \<open>pl.concat_str\<close> with its default \<open>ignore_nulls=False\<close>: a null operand makes the
  result null.
\<close>

definition concat_str :: "string option list \<Rightarrow> string option" where
  "concat_str parts = (if None \<in> set parts then None else Some (concat (map the parts)))"

text \<open>
  The sort key of \<open>.sort(by=['unique_id', 'ds'])\<close>: strings compare lexicographically
  by character code, dates chronologically, nulls come first. Polars leaves the order
  of rows with equal keys open; the model sorts stably.
\<close>

definition row_key :: "(date, 'v) long_row \<Rightarrow> string option \<times> date option" where
  "row_key r = (unique_id r, ds r)"

definition sort_rows :: "'v long_df \<Rightarrow> 'v long_df" where
  "sort_rows = sort_key row_key"

text \<open>
  The column \<open>unique_id\<close> that \<open>with_columns\<close> adds, and \<open>unpivot\<close> with the
  index columns \<open>unique_id, Product, Warehouse, Client\<close>: every other column is a
  value column, and the result lists, for each value column in header order, every row
  in order, with the column's name in \<open>ds\<close> and the cell in \<open>y\<close>.
\<close>

definition unpivot_index :: "string list" where
  "unpivot_index = [''unique_id'', ''Product'', ''Warehouse'', ''Client'']"

definition value_vars :: "'v wide_df \<Rightarrow> string list" where
  "value_vars df = [c \<leftarrow> columns df. c \<notin> set unpivot_index]"

definition unique_id_col :: "'v wide_row \<Rightarrow> string option" where
  "unique_id_col r = concat_str [Client r, Some ''/'', Warehouse r, Some ''/'', Product r]"

definition melt_row :: "string \<Rightarrow> 'v wide_row \<Rightarrow> (string, 'v) long_row" where
  "melt_row c r =
     \<lparr>ds = Some c, y = obs r c, unique_id = unique_id_col r,
      lClient = Client r, lWarehouse = Warehouse r, lProduct = Product r\<rparr>"

definition unpivot :: "'v wide_df \<Rightarrow> (string, 'v) long_row list" where
  "unpivot df = concat (map (\<lambda>c. map (melt_row c) (rows df)) (value_vars df))"

text \<open>
  The strict cast of the \<open>ds\<close> column to Date: a null stays null, and the first name
  that is not a date raises. \<open>cast_date\<close> is the cast's reading of one string.
\<close>

definition with_ds :: "date option \<Rightarrow> (string, 'v) long_row \<Rightarrow> (date, 'v) long_row" where
  "with_ds d r =
     \<lparr>ds = d, y = y r, unique_id = unique_id r,
      lClient = lClient r, lWarehouse = lWarehouse r, lProduct = lProduct r\<rparr>"

fun cast_ds ::
  "(string \<Rightarrow> date option) \<Rightarrow> (string, 'v) long_row list \<Rightarrow> error + 'v long_df" where
  "cast_ds cast_date [] = Inr []"
| "cast_ds cast_date (r # rest) =
     (case ds r of
        None \<Rightarrow>
          (case cast_ds cast_date rest of
             Inl e \<Rightarrow> Inl e
           | Inr out \<Rightarrow> Inr (with_ds None r # out))
      | Some c \<Rightarrow>
          (case cast_date c of
             None \<Rightarrow> Inl (InvalidOperationError c)
           | Some d \<Rightarrow>
               (case cast_ds cast_date rest of
                  Inl e \<Rightarrow> Inl e
                | Inr out \<Rightarrow> Inr (with_ds (Some d) r # out))))"

text \<open>\<open>pl.col('ds').is_in(dates)\<close>: a null is in no list.\<close>

definition is_in :: "(date, 'v) long_row \<Rightarrow> date list \<Rightarrow> bool" where
  "is_in r dates = (case ds r of None \<Rightarrow> False | Some d \<Rightarrow> d \<in> set dates)"

section \<open>The class \<open>DataProcessor\<close>\<close>

text \<open>
  \<open>prepare_raw_csv\<close>: the expressions on \<open>Client\<close>, \<open>Warehouse\<close> and \<open>Product\<close>
  need these columns, then unpivot, cast and sort.
\<close>

definition original_cat_cols :: "string list" where
  "original_cat_cols = [''Client'', ''Warehouse'', ''Product'']"

definition prepare_raw_csv ::
  "(string \<Rightarrow> date option) \<Rightarrow> 'v wide_df \<Rightarrow> error + 'v long_df" where
  "prepare_raw_csv cast_date df =
     (if \<not> set [''Client'', ''Warehouse'', ''Product''] \<subseteq> set (columns df)
      then Inl ColumnNotFoundError
      else (case cast_ds cast_date (unpivot df) of
              Inl e \<Rightarrow> Inl e
            | Inr long \<Rightarrow> Inr (sort_rows long)))"

text \<open>
  \<open>pl.read_csv(...)\<close> followed by the casts of the three identifier columns, and
  \<open>pl.read_parquet\<close>.
\<close>

definition read_csv :: "'v fs \<Rightarrow> string \<Rightarrow> error + 'v wide_df" where
  "read_csv st path =
     (case csv_files st path of
        None \<Rightarrow> Inl FileNotFoundError
      | Some df \<Rightarrow>
          (if set [''Client'', ''Warehouse'', ''Product''] \<subseteq> set (columns df)
           then Inr df else Inl ColumnNotFoundError))"

definition read_parquet :: "'v fs \<Rightarrow> string \<Rightarrow> error + 'v long_df" where
  "read_parquet st path =
     (case parquet_files st path of None \<Rightarrow> Inl FileNotFoundError | Some df \<Rightarrow> Inr df)"

definition write_parquet :: "'v long_df \<Rightarrow> string \<Rightarrow> 'v fs \<Rightarrow> 'v fs" where
  "write_parquet df path st = st\<lparr>parquet_files := (parquet_files st)(path \<mapsto> df)\<rparr>"

text \<open>
  The list comprehension over \<open>dt.datetime.strptime(date, '%Y-%m-%d').date()\<close>: the
  first name that does not parse raises ValueError. \<open>strptime\<close> is the reading of one
  string in that format.
\<close>

fun strptime_all :: "(string \<Rightarrow> date option) \<Rightarrow> string list \<Rightarrow> error + date list" where
  "strptime_all strptime [] = Inr []"
| "strptime_all strptime (c # cs) =
     (case strptime c of
        None \<Rightarrow> Inl (ValueError c)
      | Some d \<Rightarrow>
          (case strptime_all strptime cs of
             Inl e \<Rightarrow> Inl e
           | Inr out \<Rightarrow> Inr (d # out)))"

text \<open>
  \<open>merge_new_data_with_preprocessed_data\<close> returns the notice it prints and the file
  system it leaves; a raise returns the error and the file system as it is then.
\<close>

definition merge_new_data_with_preprocessed_data ::
  "(string \<Rightarrow> date option) \<Rightarrow> (string \<Rightarrow> date option) \<Rightarrow> data_processor \<Rightarrow> string \<Rightarrow>
   string list \<Rightarrow> 'v fs \<Rightarrow> (error + notice) \<times> 'v fs" where
  "merge_new_data_with_preprocessed_data strptime cast_date self new_data_file_name cat_cols st =
     (case read_csv st (''data/raw/'' @ new_data_file_name) of
        Inl e \<Rightarrow> (Inl e, st)
      | Inr new_df \<Rightarrow>
     (case read_parquet st (preprocessed_data_file_path self) of
        Inl e \<Rightarrow> (Inl e, st)
      | Inr old_df \<Rightarrow>
     (let dates_from_new_file = [col \<leftarrow> columns new_df. col \<notin> set cat_cols] in
      case strptime_all strptime dates_from_new_file of
        Inl e \<Rightarrow> (Inl e, st)
      | Inr date_from_new_file_datetime_format \<Rightarrow>
     (let dates_from_old_file = remdups (map ds old_df);
          dates_that_are_not_overlapping =
            [col \<leftarrow> date_from_new_file_datetime_format. Some col \<notin> set dates_from_old_file]
      in
        if dates_that_are_not_overlapping = [] then (Inr All_dates_are_overlapping, st)
        else
          (case prepare_raw_csv cast_date new_df of
             Inl e \<Rightarrow> (Inl e, st)
           | Inr long \<Rightarrow>
               (let new_df_processed =
                      [r \<leftarrow> long. is_in r dates_that_are_not_overlapping]
                in (Inr (Successfully_merged new_data_file_name),
                    write_parquet (sort_rows (old_df @ new_df_processed))
                      (preprocessed_data_file_path self) st)))))))"

text \<open>
  The loop of \<open>process_files\<close> over the directory listing. A raise in a merge leaves
  the loop, as nothing catches it.
\<close>

definition matches :: "data_processor \<Rightarrow> string \<Rightarrow> bool" where
  "matches self file = (prefix (file_name self) file \<and> suffix ''.csv'' file)"

fun merge_loop ::
  "(string \<Rightarrow> date option) \<Rightarrow> (string \<Rightarrow> date option) \<Rightarrow> data_processor \<Rightarrow>
   string list \<Rightarrow> 'v fs \<Rightarrow> (error + unit) \<times> 'v fs" where
  "merge_loop strptime cast_date self [] st = (Inr (), st)"
| "merge_loop strptime cast_date self (file # files) st =
     (if matches self file
      then (case merge_new_data_with_preprocessed_data strptime cast_date self file
                   original_cat_cols st of
              (Inl e, st') \<Rightarrow> (Inl e, st')
            | (Inr n, st') \<Rightarrow> merge_loop strptime cast_date self files st')
      else merge_loop strptime cast_date self files st)"

definition process_files ::
  "(string \<Rightarrow> date option) \<Rightarrow> (string \<Rightarrow> date option) \<Rightarrow> data_processor \<Rightarrow>
   'v fs \<Rightarrow> (error + 'v long_df) \<times> 'v fs" where
  "process_files strptime cast_date self st =
     (case listdir st (file_path self) of
        None \<Rightarrow> (Inl FileNotFoundError, st)
      | Some files \<Rightarrow>
          (case merge_loop strptime cast_date self files st of
             (Inl e, st') \<Rightarrow> (Inl e, st')
           | (Inr u, st') \<Rightarrow> (read_parquet st' (preprocessed_data_file_path self), st')))"

section \<open>A date parser for the examples\<close>

text \<open>
  Both \<open>strptime\<close> with the format \<open>%Y-%m-%d\<close> and the cast to Date read the
  zero-padded form \<open>YYYY-MM-DD\<close> of a valid date as that date, and reject a name with
  no digit in it. \<open>iso_date\<close> reads exactly the zero-padded form; the examples below
  instantiate both parsers with it.
\<close>

definition digit :: "char \<Rightarrow> nat option" where
  "digit c =
     (let n = (of_char c :: nat) in if 48 \<le> n \<and> n \<le> 57 then Some (n - 48) else None)"

fun number :: "nat \<Rightarrow> string \<Rightarrow> nat option" where
  "number acc [] = Some acc"
| "number acc (c # cs) =
     (case digit c of None \<Rightarrow> None | Some k \<Rightarrow> number (10 * acc + k) cs)"

definition leap :: "nat \<Rightarrow> bool" where
  "leap yy = (yy mod 4 = 0 \<and> (yy mod 100 \<noteq> 0 \<or> yy mod 400 = 0))"

definition days_in_month :: "nat \<Rightarrow> nat \<Rightarrow> nat" where
  "days_in_month yy mm =
     (if mm = 2 then (if leap yy then 29 else 28)
      else if mm \<in> {4, 6, 9, 11} then 30 else 31)"

definition iso_date :: "string \<Rightarrow> date option" where
  "iso_date s =
     (if length s = 10 \<and> s ! 4 = CHR ''-'' \<and> s ! 7 = CHR ''-''
      then (case (number 0 (take 4 s), number 0 (take 2 (drop 5 s)), number 0 (drop 8 s)) of
              (Some yy, Some mm, Some dd) \<Rightarrow>
                (if 1 \<le> yy \<and> 1 \<le> mm \<and> mm \<le> 12 \<and> 1 \<le> dd \<and> dd \<le> days_in_month yy mm
                 then Some (yy, mm, dd) else None)
            | _ \<Rightarrow> None)
      else None)"

section \<open>Example data\<close>

text \<open>
  A processor for the files \<open>sales*.csv\<close>, a persisted table with one record
  (\<open>C1/W1/P1\<close> on 2024-01-01 with value 10), and snapshots: \<open>sales_a.csv\<close> reports
  2024-01-01 again (with other values, and for a second entity) and 2024-01-02;
  \<open>sales_b.csv\<close> has the known date only; \<open>sales_c.csv\<close> has a column \<open>Region\<close>;
  \<open>sales_d.csv\<close> has a header and no row; \<open>sales_e.csv\<close> has two identifier
  triples that join to the same string; \<open>ex_null\<close> has an empty \<open>Client\<close> cell.
  \<open>ex_merged\<close> is the persisted table after \<open>sales_a.csv\<close> is merged.
\<close>

definition ex_self :: data_processor where
  "ex_self = DataProcessor ''data/raw'' ''sales''"

definition ex_record :: "(date, real) long_row" where
  "ex_record =
     \<lparr>ds = Some (2024, 1, 1), y = Some 10, unique_id = Some ''C1/W1/P1'',
      lClient = Some ''C1'', lWarehouse = Some ''W1'', lProduct = Some ''P1''\<rparr>"

definition ex_old :: "real long_df" where
  "ex_old = [ex_record]"

definition ex_merged :: "real long_df" where
  "ex_merged =
     [\<lparr>ds = Some (2024, 1, 1), y = Some 10, unique_id = Some ''C1/W1/P1'',
       lClient = Some ''C1'', lWarehouse = Some ''W1'', lProduct = Some ''P1''\<rparr>,
      \<lparr>ds = Some (2024, 1, 2), y = Some 7, unique_id = Some ''C1/W1/P1'',
       lClient = Some ''C1'', lWarehouse = Some ''W1'', lProduct = Some ''P1''\<rparr>,
      \<lparr>ds = Some (2024, 1, 2), y = Some 4, unique_id = Some ''C2/W1/P1'',
       lClient = Some ''C2'', lWarehouse = Some ''W1'', lProduct = Some ''P1''\<rparr>]"

definition ex_a :: "real wide_df" where
  "ex_a =
     \<lparr>columns = [''Client'', ''Warehouse'', ''Product'', ''2024-01-01'', ''2024-01-02''],
      rows = [\<lparr>Client = Some ''C2'', Warehouse = Some ''W1'', Product = Some ''P1'',
               obs = [''2024-01-01'' \<mapsto> 3, ''2024-01-02'' \<mapsto> 4]\<rparr>,
              \<lparr>Client = Some ''C1'', Warehouse = Some ''W1'', Product = Some ''P1'',
               obs = [''2024-01-01'' \<mapsto> 99, ''2024-01-02'' \<mapsto> 7]\<rparr>]\<rparr>"

definition ex_b :: "real wide_df" where
  "ex_b =
     \<lparr>columns = [''Client'', ''Warehouse'', ''Product'', ''2024-01-01''],
      rows = [\<lparr>Client = Some ''C1'', Warehouse = Some ''W1'', Product = Some ''P1'',
               obs = [''2024-01-01'' \<mapsto> 99]\<rparr>]\<rparr>"

definition ex_c :: "real wide_df" where
  "ex_c =
     \<lparr>columns = [''Client'', ''Warehouse'', ''Product'', ''Region'', ''2024-01-02''],
      rows = [\<lparr>Client = Some ''C1'', Warehouse = Some ''W1'', Product = Some ''P1'',
               obs = [''2024-01-02'' \<mapsto> 7]\<rparr>]\<rparr>"

definition ex_d :: "real wide_df" where
  "ex_d = \<lparr>columns = [''Client'', ''Warehouse'', ''Product'', ''2024-01-03''], rows = []\<rparr>"

definition ex_e :: "real wide_df" where
  "ex_e =
     \<lparr>columns = [''Client'', ''Warehouse'', ''Product'', ''2024-01-02''],
      rows = [\<lparr>Client = Some ''a/b'', Warehouse = Some ''c'', Product = Some ''d'',
               obs = [''2024-01-02'' \<mapsto> 1]\<rparr>,
              \<lparr>Client = Some ''a'', Warehouse = Some ''b/c'', Product = Some ''d'',
               obs = [''2024-01-02'' \<mapsto> 2]\<rparr>]\<rparr>"

definition ex_null :: "real wide_df" where
  "ex_null =
     \<lparr>columns = [''Client'', ''Warehouse'', ''Product'', ''2024-01-01''],
      rows = [\<lparr>Client = None, Warehouse = Some ''W1'', Product = Some ''P1'',
               obs = [''2024-01-01'' \<mapsto> 5]\<rparr>]\<rparr>"

definition ex_fs :: "real fs" where
  "ex_fs =
     \<lparr>listdir =
        [''data/raw'' \<mapsto>
           [''notes.txt'', ''sales_b.csv'', ''sales_c.csv'', ''sales_a.csv'',
            ''sales_d.csv'', ''sales_e.csv'']],
      csv_files =
        [''data/raw/sales_a.csv'' \<mapsto> ex_a, ''data/raw/sales_b.csv'' \<mapsto> ex_b,
         ''data/raw/sales_c.csv'' \<mapsto> ex_c, ''data/raw/sales_d.csv'' \<mapsto> ex_d,
         ''data/raw/sales_e.csv'' \<mapsto> ex_e],
      parquet_files = [''data/preprocessed/sales.parquet'' \<mapsto> ex_old]\<rparr>"

section \<open>Evaluating the examples\<close>

lemmas eval_defs =
  merge_new_data_with_preprocessed_data_def prepare_raw_csv_def read_csv_def read_parquet_def
  write_parquet_def unpivot_def value_vars_def unpivot_index_def melt_row_def with_ds_def
  unique_id_col_def concat_str_def is_in_def sort_rows_def row_key_def original_cat_cols_def
  DataProcessor_def matches_def process_files_def suffix_to_prefix

lemma ex_dates:
  "iso_date ''2024-01-01'' = Some (2024, 1, 1)"
  "iso_date ''2024-01-02'' = Some (2024, 1, 2)"
  "iso_date ''2024-01-03'' = Some (2024, 1, 3)"
  "iso_date ''Region'' = None"
  "iso_date ''unique_id'' = None"
  by (simp_all add: iso_date_def digit_def days_in_month_def leap_def)

lemmas ex_defs =
  ex_dates ex_self_def ex_fs_def ex_record_def ex_old_def ex_merged_def ex_a_def ex_b_def
  ex_c_def ex_d_def ex_e_def ex_null_def

lemma ex_read_old:
  "read_parquet ex_fs (preprocessed_data_file_path ex_self) = Inr ex_old"
  by (simp add: eval_defs ex_defs)

lemma ex_path: "preprocessed_data_file_path ex_self = ''data/preprocessed/sales.parquet''"
  by (simp add: ex_self_def DataProcessor_def)

lemma ex_merge_a:
  "merge_new_data_with_preprocessed_data iso_date iso_date ex_self ''sales_a.csv''
     original_cat_cols ex_fs
   = (Inr (Successfully_merged ''sales_a.csv''),
      write_parquet ex_merged ''data/preprocessed/sales.parquet'' ex_fs)"
  by (simp add: eval_defs ex_defs)

lemma ex_merge_c:
  "merge_new_data_with_preprocessed_data iso_date iso_date ex_self ''sales_c.csv''
     original_cat_cols ex_fs = (Inl (ValueError ''Region''), ex_fs)"
  by (simp add: eval_defs ex_defs)

lemma ex_merge_d:
  "merge_new_data_with_preprocessed_data iso_date iso_date ex_self ''sales_d.csv''
     original_cat_cols ex_fs
   = (Inr (Successfully_merged ''sales_d.csv''),
      write_parquet ex_old ''data/preprocessed/sales.parquet'' ex_fs)"
  by (simp add: eval_defs ex_defs)

lemma ex_csv_a: "csv_files ex_fs (''data/raw/'' @ ''sales_a.csv'') = Some ex_a"
  by (simp add: ex_fs_def)

lemma ex_strptime_a:
  "strptime_all iso_date [col \<leftarrow> columns ex_a. col \<notin> set original_cat_cols]
     = Inr [(2024, 1, 1), (2024, 1, 2)]"
  by (simp add: ex_a_def original_cat_cols_def ex_dates)

section \<open>Lemmas on the data frame operations\<close>

lemma cast_ds_Inr:
  "cast_ds cd xs = Inr out \<Longrightarrow>
     out = map (\<lambda>r. with_ds (case ds r of None \<Rightarrow> None | Some c \<Rightarrow> cd c) r) xs
     \<and> (\<forall>r\<in>set xs. \<forall>c. ds r = Some c \<longrightarrow> cd c \<noteq> None)"
  by (induction xs arbitrary: out) (auto split: option.splits sum.splits)

lemma cast_ds_total:
  "(\<forall>r\<in>set xs. \<forall>c. ds r = Some c \<longrightarrow> cd c \<noteq> None) \<Longrightarrow> \<exists>out. cast_ds cd xs = Inr out"
  by (induction xs) (auto split: option.splits sum.splits)

lemma concat_map_product:
  "concat (map (\<lambda>c. map (f c) ws) cs) = map (\<lambda>(c, w). f c w) (List.product cs ws)"
  by (induction cs) auto

lemma unpivot_product:
  "unpivot df = map (\<lambda>(c, w). melt_row c w) (List.product (value_vars df) (rows df))"
  unfolding unpivot_def by (rule concat_map_product)

lemma ds_melt_row [simp]: "ds (melt_row c w) = Some c"
  by (simp add: melt_row_def)

lemma ds_with_ds [simp]: "ds (with_ds d r) = d"
  by (simp add: with_ds_def)

lemma unique_id_with_ds [simp]: "unique_id (with_ds d (melt_row c w)) = unique_id_col w"
  by (simp add: with_ds_def melt_row_def)

text \<open>The table \<open>prepare_raw_csv\<close> returns: one row per value column and input row.\<close>

lemma prepare_raw_csv_Inr:
  assumes "prepare_raw_csv cd df = Inr long"
  shows "long = sort_rows (map (\<lambda>(c, w). with_ds (cd c) (melt_row c w))
                              (List.product (value_vars df) (rows df)))"
    and "rows df \<noteq> [] \<Longrightarrow> \<forall>c\<in>set (value_vars df). cd c \<noteq> None"
proof -
  from assms obtain out where out: "cast_ds cd (unpivot df) = Inr out" and long: "long = sort_rows out"
    by (auto simp: prepare_raw_csv_def split: if_splits sum.splits)
  from cast_ds_Inr [OF out]
  have 1: "out = map (\<lambda>r. with_ds (case ds r of None \<Rightarrow> None | Some c \<Rightarrow> cd c) r) (unpivot df)"
   and 2: "\<forall>r\<in>set (unpivot df). \<forall>c. ds r = Some c \<longrightarrow> cd c \<noteq> None"
    by blast+
  show "long = sort_rows (map (\<lambda>(c, w). with_ds (cd c) (melt_row c w))
                              (List.product (value_vars df) (rows df)))"
    unfolding long 1 unpivot_product by (simp add: case_prod_unfold comp_def)
  show "\<forall>c\<in>set (value_vars df). cd c \<noteq> None" if "rows df \<noteq> []"
  proof
    fix c assume c: "c \<in> set (value_vars df)"
    from that obtain w where "w \<in> set (rows df)" by (cases "rows df") auto
    with c have "melt_row c w \<in> set (unpivot df)"
      by (force simp: unpivot_product)
    with 2 show "cd c \<noteq> None" by force
  qed
qed

lemma prepare_raw_csv_total:
  assumes "set [''Client'', ''Warehouse'', ''Product''] \<subseteq> set (columns df)"
      and "\<forall>c\<in>set (value_vars df). cd c \<noteq> None"
  shows "\<exists>long. prepare_raw_csv cd df = Inr long"
proof -
  have "\<forall>r\<in>set (unpivot df). \<forall>c. ds r = Some c \<longrightarrow> cd c \<noteq> None"
    using assms(2) by (auto simp: unpivot_product)
  from cast_ds_total [OF this] obtain out where "cast_ds cd (unpivot df) = Inr out" ..
  with assms(1) show ?thesis by (simp add: prepare_raw_csv_def)
qed

lemma strptime_all_Inr:
  "strptime_all sp cs = Inr out \<Longrightarrow> map Some out = map sp cs"
  by (induction cs arbitrary: out) (auto split: option.splits sum.splits)

lemma strptime_all_bad:
  "c \<in> set cs \<Longrightarrow> sp c = None \<Longrightarrow>
     \<exists>c'\<in>set cs. sp c' = None \<and> strptime_all sp cs = Inl (ValueError c')"
  by (induction cs) (auto split: option.splits sum.splits)

lemma mset_sort_rows [simp]: "mset (sort_rows xs) = mset xs"
  by (simp add: sort_rows_def)

lemma set_sort_rows [simp]: "set (sort_rows xs) = set xs"
  by (simp add: sort_rows_def)

lemma sorted_sort_rows: "sorted (map row_key (sort_rows xs))"
  by (simp add: sort_rows_def)

lemma distinct_keys_sort_rows [simp]:
  "distinct (map row_key (sort_rows xs)) = distinct (map row_key xs)"
  by (rule mset_eq_imp_distinct_iff) simp

lemma parquet_write [simp]: "parquet_files (write_parquet df p st) p = Some df"
  by (simp add: write_parquet_def)

lemma csv_write [simp]: "csv_files (write_parquet df p st) = csv_files st"
  by (simp add: write_parquet_def)

lemma read_parquet_Inr: "(read_parquet st p = Inr df) = (parquet_files st p = Some df)"
  by (simp add: read_parquet_def split: option.splits)

lemma read_csv_write [simp]: "read_csv (write_parquet df p st) q = read_csv st q"
  by (simp add: read_csv_def)

lemma is_in_new:
  "is_in r [col \<leftarrow> dts. Some col \<notin> D] \<Longrightarrow> \<exists>d. ds r = Some d \<and> d \<in> set dts \<and> Some d \<notin> D"
  by (auto simp: is_in_def split: option.splits)

section \<open>The three ways a merge ends\<close>

lemma merge_cases:
  assumes "merge_new_data_with_preprocessed_data sp cd self f cc st = (res, st')"
  shows "(\<exists>e. res = Inl e \<and> st' = st)
       \<or> (res = Inr All_dates_are_overlapping \<and> st' = st)
       \<or> (\<exists>new_df old_df dts long.
             res = Inr (Successfully_merged f)
           \<and> read_csv st (''data/raw/'' @ f) = Inr new_df
           \<and> read_parquet st (preprocessed_data_file_path self) = Inr old_df
           \<and> strptime_all sp [col \<leftarrow> columns new_df. col \<notin> set cc] = Inr dts
           \<and> prepare_raw_csv cd new_df = Inr long
           \<and> [col \<leftarrow> dts. Some col \<notin> ds ` set old_df] \<noteq> []
           \<and> st' = write_parquet
                     (sort_rows (old_df @ [r \<leftarrow> long. is_in r [col \<leftarrow> dts. Some col \<notin> ds ` set old_df]]))
                     (preprocessed_data_file_path self) st)"
  using assms unfolding merge_new_data_with_preprocessed_data_def
  by (auto simp: Let_def split: sum.splits if_splits)

lemma merge_noop:
  assumes "read_csv st (''data/raw/'' @ f) = Inr new_df"
      and "read_parquet st (preprocessed_data_file_path self) = Inr old_df"
      and "strptime_all sp [col \<leftarrow> columns new_df. col \<notin> set cc] = Inr dts"
  shows "(merge_new_data_with_preprocessed_data sp cd self f cc st = (Inr All_dates_are_overlapping, st))
         = (\<forall>d\<in>set dts. Some d \<in> ds ` set old_df)"
  using assms unfolding merge_new_data_with_preprocessed_data_def
  by (auto simp: Let_def filter_empty_conv split: sum.splits if_splits)

text \<open>What a merge does to the persisted table: it adds rows, each with a date that no
  row of the table had.\<close>

lemma merge_store:
  assumes "read_parquet st (preprocessed_data_file_path self) = Inr old_df"
      and "merge_new_data_with_preprocessed_data sp cd self f cc st = (res, st')"
  shows "\<exists>new added. read_parquet st' (preprocessed_data_file_path self) = Inr new
           \<and> mset new = mset old_df + mset added
           \<and> (\<forall>r\<in>set added. ds r \<noteq> None \<and> ds r \<notin> ds ` set old_df)"
proof -
  from merge_cases [OF assms(2)] show ?thesis
  proof (elim disjE exE conjE)
    fix e assume "st' = st"
    with assms(1) show ?thesis by (intro exI [of _ old_df] exI [of _ "[]"]) simp
  next
    assume "st' = st" "res = Inr All_dates_are_overlapping"
    with assms(1) show ?thesis by (intro exI [of _ old_df] exI [of _ "[]"]) simp
  next
    fix new_df old dts long
    assume rp: "read_parquet st (preprocessed_data_file_path self) = Inr old"
       and st': "st' = write_parquet
                     (sort_rows (old @ [r \<leftarrow> long. is_in r [col \<leftarrow> dts. Some col \<notin> ds ` set old]]))
                     (preprocessed_data_file_path self) st"
    from rp assms(1) have old: "old = old_df" by simp
    let ?added = "[r \<leftarrow> long. is_in r [col \<leftarrow> dts. Some col \<notin> ds ` set old_df]]"
    have "\<forall>r\<in>set ?added. ds r \<noteq> None \<and> ds r \<notin> ds ` set old_df"
      using is_in_new by fastforce
    then show ?thesis
      unfolding st' old
      by (intro exI [of _ "sort_rows (old_df @ ?added)"] exI [of _ ?added])
         (simp add: read_parquet_Inr)
  qed
qed

lemma merge_Inl_unchanged:
  "merge_new_data_with_preprocessed_data sp cd self f cc st = (Inl e, st') \<Longrightarrow> st' = st"
  by (drule merge_cases) auto

lemma merge_loop_append:
  "merge_loop sp cd self before st = (Inr u, st1) \<Longrightarrow>
   merge_loop sp cd self (before @ rest) st = merge_loop sp cd self rest st1"
  by (induction before arbitrary: st) (auto split: prod.splits sum.splits if_splits)

section \<open>Lemmas on keys and dates\<close>

lemma key_le_iff:
  "(row_key a \<le> row_key b) =
     (unique_id a < unique_id b \<or> (unique_id a = unique_id b \<and> ds a \<le> ds b))"
  by (auto simp: row_key_def)

lemma sorted_keys_scan:
  "sorted (map row_key xs) =
     sorted_wrt (\<lambda>a b. unique_id a < unique_id b \<or> (unique_id a = unique_id b \<and> ds a \<le> ds b)) xs"
  by (simp add: sorted_map key_le_iff)

lemma unpivot_index_set: "set unpivot_index = insert ''unique_id'' (set original_cat_cols)"
  unfolding unpivot_index_def original_cat_cols_def by (simp add: insert_commute)

lemma unique_id_not_cat: "''unique_id'' \<notin> set original_cat_cols"
  by (simp add: original_cat_cols_def)

lemma value_vars_cat_cols:
  assumes "''unique_id'' \<notin> set (columns df)"
  shows "value_vars df = [c \<leftarrow> columns df. c \<notin> set original_cat_cols]"
  unfolding value_vars_def unpivot_index_set
  using assms by (intro filter_cong refl) blast

lemma unique_id_col_None:
  "(unique_id_col w = None) = (Client w = None \<or> Warehouse w = None \<or> Product w = None)"
  by (cases "Client w"; cases "Warehouse w"; cases "Product w")
     (simp_all add: unique_id_col_def concat_str_def)

lemma long_fields [simp]:
  "lClient (with_ds d (melt_row c w)) = Client w"
  "lWarehouse (with_ds d (melt_row c w)) = Warehouse w"
  "lProduct (with_ds d (melt_row c w)) = Product w"
  "y (with_ds d (melt_row c w)) = obs w c"
  by (simp_all add: with_ds_def melt_row_def)

lemma row_key_with_ds [simp]:
  "row_key (with_ds d (melt_row c w)) = (unique_id_col w, d)"
  by (simp add: row_key_def)

lemma strptime_all_set:
  "strptime_all sp cs = Inr out \<Longrightarrow> Some ` set out = sp ` set cs"
proof -
  assume "strptime_all sp cs = Inr out"
  then have "map Some out = map sp cs" by (rule strptime_all_Inr)
  then have "set (map Some out) = set (map sp cs)" by simp
  then show ?thesis by simp
qed

lemma set_prepare_raw_csv:
  assumes "prepare_raw_csv cd df = Inr long"
  shows "set long = (\<lambda>(c, w). with_ds (cd c) (melt_row c w)) ` (set (value_vars df) \<times> set (rows df))"
  unfolding prepare_raw_csv_Inr(1) [OF assms] by simp

lemma read_csv_Inr: "read_csv st p = Inr df \<Longrightarrow> csv_files st p = Some df"
  by (auto simp: read_csv_def split: option.splits if_splits)

text \<open>The dates of the table a merge writes, for a snapshot with a row.\<close>

lemma written_dates:
  assumes long: "prepare_raw_csv cd new_df = Inr long"
      and dts: "strptime_all sp [col \<leftarrow> columns new_df. col \<notin> set original_cat_cols] = Inr dts"
      and rows: "rows new_df \<noteq> []"
      and uid: "sp ''unique_id'' = None"
      and agree: "\<forall>c\<in>set (columns new_df). sp c \<noteq> None \<longrightarrow> cd c = sp c"
  shows "ds ` set (sort_rows (old_df @ [r \<leftarrow> long. is_in r [col \<leftarrow> dts. Some col \<notin> ds ` set old_df]]))
           = ds ` set old_df \<union> Some ` set dts"
    (is "ds ` set (sort_rows (old_df @ ?added)) = _")
proof -
  have sub: "ds ` set ?added \<subseteq> Some ` set dts"
    using is_in_new by fastforce
  have sup: "Some d \<in> ds ` set old_df \<union> ds ` set ?added" if d: "d \<in> set dts" for d
  proof (cases "Some d \<in> ds ` set old_df")
    case True
    then show ?thesis by simp
  next
    case False
    from d have "Some d \<in> Some ` set dts" by simp
    then have "Some d \<in> sp ` set [col \<leftarrow> columns new_df. col \<notin> set original_cat_cols]"
      unfolding strptime_all_set [OF dts] .
    then obtain c where "c \<in> set [col \<leftarrow> columns new_df. col \<notin> set original_cat_cols]"
      and spc: "sp c = Some d"
      by (auto simp: image_iff)
    then have c: "c \<in> set (columns new_df)" "c \<notin> set original_cat_cols" by simp_all
    from spc uid have "c \<noteq> ''unique_id''" by auto
    with c have cv: "c \<in> set (value_vars new_df)"
      by (simp add: value_vars_def unpivot_index_set)
    from rows obtain w where w: "w \<in> set (rows new_df)" by (cases "rows new_df") auto
    from agree c(1) spc have cdc: "cd c = Some d" by (metis option.distinct(1))
    let ?x = "with_ds (cd c) (melt_row c w)"
    from cv w have "(c, w) \<in> set (value_vars new_df) \<times> set (rows new_df)" by simp
    then have "?x \<in> set long"
      unfolding set_prepare_raw_csv [OF long] by (rule image_eqI [rotated]) simp
    moreover from d False cdc have "is_in ?x [col \<leftarrow> dts. Some col \<notin> ds ` set old_df]"
      by (simp add: is_in_def)
    ultimately have "?x \<in> set ?added" by simp
    moreover have "ds ?x = Some d" using cdc by simp
    ultimately have "Some d \<in> ds ` set ?added" by (metis image_eqI)
    then show ?thesis by simp
  qed
  have "ds ` set (sort_rows (old_df @ ?added)) = ds ` set old_df \<union> ds ` set ?added"
    by (simp add: image_Un)
  also have "\<dots> = ds ` set old_df \<union> Some ` set dts"
    using sub sup by blast
  finally show ?thesis .
qed

lemma distinct_keys_prepare_raw_csv:
  assumes long: "prepare_raw_csv cd df = Inr long"
      and keys: "distinct (map unique_id_col (rows df))"
      and dates: "distinct (map cd (value_vars df))"
  shows "distinct (map row_key long)"
proof -
  let ?prod = "List.product (value_vars df) (rows df)"
  from keys have dr: "distinct (rows df)" and ir: "inj_on unique_id_col (set (rows df))"
    by (simp_all add: distinct_map)
  from dates have dc: "distinct (value_vars df)" and ic: "inj_on cd (set (value_vars df))"
    by (simp_all add: distinct_map)
  from dc dr have dp: "distinct ?prod" by (rule distinct_product)
  have inj: "inj_on (\<lambda>(c, w). (unique_id_col w, cd c)) (set ?prod)"
  proof (rule inj_onI)
    fix p q
    assume p: "p \<in> set ?prod" and q: "q \<in> set ?prod"
       and eq: "(case p of (c, w) \<Rightarrow> (unique_id_col w, cd c)) = (case q of (c, w) \<Rightarrow> (unique_id_col w, cd c))"
    obtain c w where pw: "p = (c, w)" by (cases p)
    obtain c' w' where qw: "q = (c', w')" by (cases q)
    from p q pw qw have m: "c \<in> set (value_vars df)" "c' \<in> set (value_vars df)"
        "w \<in> set (rows df)" "w' \<in> set (rows df)"
      by simp_all
    from eq pw qw have e: "unique_id_col w = unique_id_col w'" "cd c = cd c'" by simp_all
    from ir e(1) m(3,4) have "w = w'" by (rule inj_onD)
    moreover from ic e(2) m(1,2) have "c = c'" by (rule inj_onD)
    ultimately show "p = q" using pw qw by simp
  qed
  have "map row_key (map (\<lambda>(c, w). with_ds (cd c) (melt_row c w)) ?prod)
          = map (\<lambda>(c, w). (unique_id_col w, cd c)) ?prod"
    by (simp add: case_prod_unfold)
  moreover from dp inj have "distinct (map (\<lambda>(c, w). (unique_id_col w, cd c)) ?prod)"
    by (simp add: distinct_map)
  ultimately have "distinct (map row_key (map (\<lambda>(c, w). with_ds (cd c) (melt_row c w)) ?prod))"
    by (simp only:)
  then show ?thesis
    unfolding prepare_raw_csv_Inr(1) [OF long] distinct_keys_sort_rows .
qed

section \<open>Lemmas on a second merge of the same snapshot\<close>





section \<open>The claims\<close>

text \<open>
  C1, first write wins. If the persisted table holds a record \<open>r\<close> for the date \<open>D\<close>,
  then after a merge of any snapshot (one with a column for \<open>D\<close>, with whatever values,
  included) the record is still in the table, and every row with the date \<open>D\<close> occurs
  in the table exactly as often as before: no row of the snapshot for \<open>D\<close> is added.
\<close>

theorem first_write_wins:
  assumes "read_parquet st (preprocessed_data_file_path self) = Inr old_df"
      and "r \<in> set old_df" and "ds r = Some D"
      and "merge_new_data_with_preprocessed_data strptime cast_date self f cat_cols st = (res, st')"
  shows "\<exists>new. read_parquet st' (preprocessed_data_file_path self) = Inr new
           \<and> r \<in> set new
           \<and> (\<forall>x. ds x = Some D \<longrightarrow> count (mset new) x = count (mset old_df) x)"
proof -
  from merge_store [OF assms(1,4)] obtain new added where
    new: "read_parquet st' (preprocessed_data_file_path self) = Inr new"
    and ms: "mset new = mset old_df + mset added"
    and added: "\<forall>r\<in>set added. ds r \<noteq> None \<and> ds r \<notin> ds ` set old_df"
    by blast
  from assms(2) ms have "r \<in># mset new" by simp
  then have 1: "r \<in> set new" by simp
  have 2: "count (mset new) x = count (mset old_df) x" if "ds x = Some D" for x
  proof -
    from assms(2,3) have "Some D \<in> ds ` set old_df" by force
    with added that have "x \<notin> set added" by auto
    then have "count (mset added) x = 0" by (simp add: count_eq_zero_iff)
    with ms show ?thesis by simp
  qed
  from new 1 2 show ?thesis by blast
qed

text \<open>
  The witness for C1: the table holds \<open>C1/W1/P1\<close> on 2024-01-01 with value 10, and
  \<open>sales_a.csv\<close> reports 99 for it.
\<close>

theorem first_write_wins_witness:
  "read_parquet ex_fs (preprocessed_data_file_path ex_self) = Inr ex_old
   \<and> ex_record \<in> set ex_old \<and> ds ex_record = Some (2024, 1, 1)
   \<and> merge_new_data_with_preprocessed_data iso_date iso_date ex_self ''sales_a.csv''
       original_cat_cols ex_fs
     = (Inr (Successfully_merged ''sales_a.csv''),
        write_parquet ex_merged ''data/preprocessed/sales.parquet'' ex_fs)
   \<and> (\<exists>new. read_parquet (write_parquet ex_merged ''data/preprocessed/sales.parquet'' ex_fs)
               (preprocessed_data_file_path ex_self) = Inr new
           \<and> ex_record \<in> set new
           \<and> (\<forall>x. ds x = Some (2024, 1, 1) \<longrightarrow> count (mset new) x = count (mset ex_old) x))"
proof -
  have 1: "ex_record \<in> set ex_old" by (simp add: ex_old_def)
  have 2: "ds ex_record = Some (2024, 1, 1)" by (simp add: ex_record_def)
  from first_write_wins [OF ex_read_old 1 2 ex_merge_a] ex_read_old 1 2 ex_merge_a
  show ?thesis by (intro conjI)
qed

text \<open>
  C2, uniqueness. As stated, with at most one row per triple (Client, Warehouse,
  Product), the claim fails: the triples \<open>(a/b, c, d)\<close> and \<open>(a, b/c, d)\<close> of
  \<open>sales_e.csv\<close> differ and join to the same \<open>unique_id\<close>, and the merge writes
  two records for \<open>a/b/c/d\<close> on 2024-01-02.
\<close>

theorem uniqueness_counterexample:
  "distinct (zip (map Client (rows ex_e)) (zip (map Warehouse (rows ex_e)) (map Product (rows ex_e))))
   \<and> read_parquet ex_fs (preprocessed_data_file_path ex_self) = Inr ex_old
   \<and> distinct (map row_key ex_old)
   \<and> merge_new_data_with_preprocessed_data iso_date iso_date ex_self ''sales_e.csv''
        original_cat_cols ex_fs
      = (Inr (Successfully_merged ''sales_e.csv''),
         write_parquet
           [ex_record,
            \<lparr>ds = Some (2024, 1, 2), y = Some 1, unique_id = Some ''a/b/c/d'',
             lClient = Some ''a/b'', lWarehouse = Some ''c'', lProduct = Some ''d''\<rparr>,
            \<lparr>ds = Some (2024, 1, 2), y = Some 2, unique_id = Some ''a/b/c/d'',
             lClient = Some ''a'', lWarehouse = Some ''b/c'', lProduct = Some ''d''\<rparr>]
           ''data/preprocessed/sales.parquet'' ex_fs)"
  by (simp add: eval_defs ex_defs)

text \<open>
  C2 as amended: a merge keeps the pairs (\<open>unique_id\<close>, \<open>ds\<close>) of the persisted table
  distinct when the snapshot has at most one row per \<open>unique_id\<close> (the joined string,
  or null) and no two of its value columns are read as the same date. It holds however
  the merge ends, so it holds after any sequence of merges.
\<close>

theorem uniqueness_preserved:
  assumes "read_parquet st (preprocessed_data_file_path self) = Inr old_df"
      and "distinct (map row_key old_df)"
      and "csv_files st (''data/raw/'' @ f) = Some new_df"
      and "distinct (map unique_id_col (rows new_df))"
      and "distinct (map cast_date (value_vars new_df))"
      and "merge_new_data_with_preprocessed_data strptime cast_date self f cat_cols st = (res, st')"
  shows "\<exists>new. read_parquet st' (preprocessed_data_file_path self) = Inr new
           \<and> distinct (map row_key new)"
proof -
  from merge_cases [OF assms(6)] show ?thesis
  proof (elim disjE exE conjE)
    fix e assume "st' = st"
    with assms(1,2) show ?thesis by simp
  next
    assume "st' = st" "res = Inr All_dates_are_overlapping"
    with assms(1,2) show ?thesis by simp
  next
    fix df old dts long
    assume rc: "read_csv st (''data/raw/'' @ f) = Inr df"
       and rp: "read_parquet st (preprocessed_data_file_path self) = Inr old"
       and long: "prepare_raw_csv cast_date df = Inr long"
       and st': "st' = write_parquet
                   (sort_rows (old @ [r \<leftarrow> long. is_in r [col \<leftarrow> dts. Some col \<notin> ds ` set old]]))
                   (preprocessed_data_file_path self) st"
    from rp assms(1) have old: "old = old_df" by simp
    from read_csv_Inr [OF rc] assms(3) have df: "df = new_df" by simp
    let ?added = "[r \<leftarrow> long. is_in r [col \<leftarrow> dts. Some col \<notin> ds ` set old_df]]"
    from long assms(4,5) have "distinct (map row_key long)"
      unfolding df by (rule distinct_keys_prepare_raw_csv)
    then have 1: "distinct (map row_key ?added)" by (rule distinct_map_filter)
    have 2: "row_key ` set old_df \<inter> row_key ` set ?added = {}"
    proof (rule ccontr)
      assume "row_key ` set old_df \<inter> row_key ` set ?added \<noteq> {}"
      then obtain k where "k \<in> row_key ` set old_df" "k \<in> row_key ` set ?added"
        by blast
      then obtain a b where a: "a \<in> set old_df" and b: "b \<in> set ?added"
        and "row_key a = row_key b"
        by (elim imageE) simp
      then have "ds a = ds b" by (simp add: row_key_def)
      moreover from b have "ds b \<notin> ds ` set old_df"
        using is_in_new by fastforce
      ultimately show False using a by (metis image_eqI)
    qed
    from assms(2) 1 2 have "distinct (map row_key (old_df @ ?added))" by simp
    then have "distinct (map row_key (sort_rows (old_df @ ?added)))" by simp
    then show ?thesis
      unfolding st' old by (simp add: read_parquet_Inr)
  qed
qed

text \<open>
The witness for C2: \<open>sales_a.csv\<close> merged into the example table.
\<close>

theorem uniqueness_preserved_witness:
  "read_parquet ex_fs (preprocessed_data_file_path ex_self) = Inr ex_old
   \<and> distinct (map row_key ex_old)
   \<and> csv_files ex_fs (''data/raw/'' @ ''sales_a.csv'') = Some ex_a
   \<and> distinct (map unique_id_col (rows ex_a))
   \<and> distinct (map iso_date (value_vars ex_a))
   \<and> merge_new_data_with_preprocessed_data iso_date iso_date ex_self ''sales_a.csv''
       original_cat_cols ex_fs
     = (Inr (Successfully_merged ''sales_a.csv''),
        write_parquet ex_merged ''data/preprocessed/sales.parquet'' ex_fs)
   \<and> (\<exists>new. read_parquet (write_parquet ex_merged ''data/preprocessed/sales.parquet'' ex_fs)
               (preprocessed_data_file_path ex_self) = Inr new
           \<and> distinct (map row_key new))"
proof -
  have 1: "distinct (map row_key ex_old)" by (simp add: ex_old_def)
  have 2: "distinct (map unique_id_col (rows ex_a))"
    by (simp add: ex_a_def unique_id_col_def concat_str_def)
  have 3: "distinct (map iso_date (value_vars ex_a))"
    by (simp add: ex_a_def value_vars_def unpivot_index_def ex_dates)
  from uniqueness_preserved [OF ex_read_old 1 ex_csv_a 2 3 ex_merge_a]
    ex_read_old 1 ex_csv_a 2 3 ex_merge_a
  show ?thesis by (intro conjI)
qed

text \<open>
  C3, ordering. After a merge that writes, the persisted table is sorted by
  \<open>unique_id\<close> and then by \<open>ds\<close>: a scan finds no inversion. Nothing is assumed
  on the order of the old table or of the snapshot.
\<close>

theorem merge_sorted:
  assumes "merge_new_data_with_preprocessed_data strptime cast_date self f cat_cols st
             = (Inr (Successfully_merged g), st')"
  shows "\<exists>new. read_parquet st' (preprocessed_data_file_path self) = Inr new
           \<and> sorted_wrt (\<lambda>a b. unique_id a < unique_id b
                                \<or> (unique_id a = unique_id b \<and> ds a \<le> ds b)) new"
  using merge_cases [OF assms]
  by (auto simp: read_parquet_Inr sorted_sort_rows sorted_keys_scan [symmetric])

text \<open>
The witness for C3: the rows of \<open>sales_a.csv\<close> come in the order C2, C1.
\<close>

theorem merge_sorted_witness:
  "merge_new_data_with_preprocessed_data iso_date iso_date ex_self ''sales_a.csv''
       original_cat_cols ex_fs
     = (Inr (Successfully_merged ''sales_a.csv''),
        write_parquet ex_merged ''data/preprocessed/sales.parquet'' ex_fs)
   \<and> (\<exists>new. read_parquet (write_parquet ex_merged ''data/preprocessed/sales.parquet'' ex_fs)
               (preprocessed_data_file_path ex_self) = Inr new
           \<and> sorted_wrt (\<lambda>a b. unique_id a < unique_id b
                                \<or> (unique_id a = unique_id b \<and> ds a \<le> ds b)) new)"
  using merge_sorted [OF ex_merge_a] ex_merge_a by (intro conjI)

text \<open>
  C4, short-circuit. Once the snapshot and the persisted table are read and every
  column name is parsed, the merge reports that all dates overlap and leaves the file
  system as it is exactly when the set of parsed dates minus the set of stored dates
  is empty. Only the two sets matter, not the order or the repetitions in the lists.
\<close>

theorem short_circuit:
  assumes "read_csv st (''data/raw/'' @ f) = Inr new_df"
      and "read_parquet st (preprocessed_data_file_path self) = Inr old_df"
      and "strptime_all strptime [col \<leftarrow> columns new_df. col \<notin> set cat_cols] = Inr dts"
  shows "(set dts - {d. Some d \<in> set (map ds old_df)} = {})
         = (merge_new_data_with_preprocessed_data strptime cast_date self f cat_cols st
              = (Inr All_dates_are_overlapping, st))"
  unfolding merge_noop [OF assms] by auto

text \<open>
The witness for C4: \<open>sales_b.csv\<close> has the stored date 2024-01-01 only.
\<close>

theorem short_circuit_witness:
  "read_csv ex_fs (''data/raw/'' @ ''sales_b.csv'') = Inr ex_b
   \<and> read_parquet ex_fs (preprocessed_data_file_path ex_self) = Inr ex_old
   \<and> strptime_all iso_date [col \<leftarrow> columns ex_b. col \<notin> set original_cat_cols] = Inr [(2024, 1, 1)]
   \<and> set [(2024, 1, 1)] - {d. Some d \<in> set (map ds ex_old)} = {}
   \<and> merge_new_data_with_preprocessed_data iso_date iso_date ex_self ''sales_b.csv''
        original_cat_cols ex_fs = (Inr All_dates_are_overlapping, ex_fs)"
proof -
  have 1: "read_csv ex_fs (''data/raw/'' @ ''sales_b.csv'') = Inr ex_b"
    by (simp add: eval_defs ex_defs)
  have 2: "read_parquet ex_fs (preprocessed_data_file_path ex_self) = Inr ex_old"
    by (simp add: eval_defs ex_defs)
  have 3: "strptime_all iso_date [col \<leftarrow> columns ex_b. col \<notin> set original_cat_cols]
             = Inr [(2024, 1, 1)]"
    by (simp add: eval_defs ex_defs)
  have 4: "set [(2024, 1, 1)] - {d. Some d \<in> set (map ds ex_old)} = {}"
    by (simp add: ex_defs)
  from short_circuit [OF 1 2 3, of iso_date] 1 2 3 4 show ?thesis by blast
qed




text \<open>
  C6, schema error. If the snapshot has a column outside Client, Warehouse, Product
  whose name does not parse, the merge raises and the file system is as before. When
  the snapshot has the three identifier columns and the persisted table exists, the
  error is the ValueError of \<open>strptime\<close> on such a column.
\<close>

theorem schema_error_aborts:
  assumes "csv_files st (''data/raw/'' @ f) = Some new_df"
      and "c \<in> set (columns new_df)" and "c \<notin> set original_cat_cols"
      and "strptime c = None"
  shows "\<exists>e. merge_new_data_with_preprocessed_data strptime cast_date self f original_cat_cols st
               = (Inl e, st)
           \<and> (set original_cat_cols \<subseteq> set (columns new_df)
              \<and> parquet_files st (preprocessed_data_file_path self) \<noteq> None
              \<longrightarrow> (\<exists>c'\<in>set (columns new_df).
                     c' \<notin> set original_cat_cols \<and> strptime c' = None \<and> e = ValueError c'))"
proof -
  from assms(2,3) have "c \<in> set [col \<leftarrow> columns new_df. col \<notin> set original_cat_cols]" by simp
  from strptime_all_bad [where sp = strptime, OF this assms(4)] obtain c' where
    c': "c' \<in> set (columns new_df)" "c' \<notin> set original_cat_cols" "strptime c' = None"
    and bad: "strptime_all strptime [col \<leftarrow> columns new_df. col \<notin> set original_cat_cols]
                = Inl (ValueError c')"
    by auto
  show ?thesis
  proof (cases "read_csv st (''data/raw/'' @ f)")
    case (Inl e)
    with assms(1) have "\<not> set original_cat_cols \<subseteq> set (columns new_df)"
      by (auto simp: read_csv_def original_cat_cols_def split: if_splits)
    with Inl show ?thesis
      by (simp add: merge_new_data_with_preprocessed_data_def)
  next
    case (Inr df)
    with assms(1) have df: "df = new_df" by (auto simp: read_csv_def split: if_splits)
    show ?thesis
    proof (cases "read_parquet st (preprocessed_data_file_path self)")
      case (Inl e)
      then have "parquet_files st (preprocessed_data_file_path self) = None"
        by (auto simp: read_parquet_def split: option.splits)
      with Inl Inr show ?thesis
        by (simp add: merge_new_data_with_preprocessed_data_def)
    next
      case old: (Inr old_df)
      from Inr old bad c' show ?thesis
        unfolding df by (auto simp: merge_new_data_with_preprocessed_data_def)
    qed
  qed
qed

text \<open>
The witness for C6: the column \<open>Region\<close> of \<open>sales_c.csv\<close>.
\<close>

theorem schema_error_aborts_witness:
  "csv_files ex_fs (''data/raw/'' @ ''sales_c.csv'') = Some ex_c
   \<and> ''Region'' \<in> set (columns ex_c) \<and> ''Region'' \<notin> set original_cat_cols
   \<and> iso_date ''Region'' = None
   \<and> set original_cat_cols \<subseteq> set (columns ex_c)
   \<and> parquet_files ex_fs (preprocessed_data_file_path ex_self) \<noteq> None
   \<and> merge_new_data_with_preprocessed_data iso_date iso_date ex_self ''sales_c.csv''
        original_cat_cols ex_fs = (Inl (ValueError ''Region''), ex_fs)"
proof -
  have 1: "csv_files ex_fs (''data/raw/'' @ ''sales_c.csv'') = Some ex_c"
    by (simp add: ex_defs)
  have 2: "''Region'' \<in> set (columns ex_c)" by (simp add: ex_defs)
  have 3: "''Region'' \<notin> set original_cat_cols" by (simp add: original_cat_cols_def)
  have 4: "iso_date ''Region'' = None" by (simp add: ex_dates)
  have 5: "set original_cat_cols \<subseteq> set (columns ex_c)"
    by (simp add: ex_defs original_cat_cols_def)
  have 6: "parquet_files ex_fs (preprocessed_data_file_path ex_self) \<noteq> None"
    by (simp add: ex_defs DataProcessor_def)
  have 7: "\<forall>c'\<in>set (columns ex_c). c' \<notin> set original_cat_cols \<and> iso_date c' = None
             \<longrightarrow> c' = ''Region''"
    by (simp add: eval_defs ex_defs)
  from schema_error_aborts [where strptime = iso_date and cast_date = iso_date and self = ex_self, OF 1 2 3 4] 5 6 7
  have "merge_new_data_with_preprocessed_data iso_date iso_date ex_self ''sales_c.csv''
        original_cat_cols ex_fs = (Inl (ValueError ''Region''), ex_fs)"
    by blast
  with 1 2 3 4 5 6 show ?thesis by blast
qed

text \<open>
  C7, per-file isolation. As stated the claim fails: nothing catches the error of a
  merge, so it leaves the loop of \<open>process_files\<close>. In the example listing
  \<open>sales_c.csv\<close> raises, and \<open>sales_a.csv\<close>, which comes later and whose merge would
  have changed the table, is not merged: the run ends in the error with the table
  unchanged.
\<close>

theorem process_files_aborts_whole_run_counterexample:
  "listdir ex_fs (file_path ex_self)
     = Some [''notes.txt'', ''sales_b.csv'', ''sales_c.csv'', ''sales_a.csv'',
             ''sales_d.csv'', ''sales_e.csv'']
   \<and> merge_new_data_with_preprocessed_data iso_date iso_date ex_self ''sales_c.csv''
        original_cat_cols ex_fs = (Inl (ValueError ''Region''), ex_fs)
   \<and> merge_new_data_with_preprocessed_data iso_date iso_date ex_self ''sales_a.csv''
        original_cat_cols ex_fs
      = (Inr (Successfully_merged ''sales_a.csv''),
         write_parquet ex_merged ''data/preprocessed/sales.parquet'' ex_fs)
   \<and> process_files iso_date iso_date ex_self ex_fs = (Inl (ValueError ''Region''), ex_fs)
   \<and> read_parquet ex_fs ''data/preprocessed/sales.parquet'' = Inr ex_old
   \<and> ex_old \<noteq> ex_merged"
  by (simp add: eval_defs ex_defs)

text \<open>
  C7 as amended: when the merge of a matching file raises, \<open>process_files\<close> ends
  with that error, in the file system that the files before it left; no later file
  is merged.
\<close>

theorem process_files_aborts:
  assumes "listdir st (file_path self) = Some (before @ file # after)"
      and "merge_loop strptime cast_date self before st = (Inr (), st1)"
      and "matches self file"
      and "merge_new_data_with_preprocessed_data strptime cast_date self file
             original_cat_cols st1 = (Inl e, st2)"
  shows "process_files strptime cast_date self st = (Inl e, st1)"
proof -
  from assms(4) have "st2 = st1" by (rule merge_Inl_unchanged)
  with assms(3,4) have "merge_loop strptime cast_date self (file # after) st1 = (Inl e, st1)"
    by simp
  with merge_loop_append [OF assms(2)]
  have "merge_loop strptime cast_date self (before @ file # after) st = (Inl e, st1)"
    by simp
  with assms(1) show ?thesis by (simp add: process_files_def)
qed

text \<open>
The witness for C7: the example listing, split at \<open>sales_c.csv\<close>.
\<close>

theorem process_files_aborts_witness:
  "listdir ex_fs (file_path ex_self)
     = Some ([''notes.txt'', ''sales_b.csv''] @ ''sales_c.csv'' #
             [''sales_a.csv'', ''sales_d.csv'', ''sales_e.csv''])
   \<and> merge_loop iso_date iso_date ex_self [''notes.txt'', ''sales_b.csv''] ex_fs = (Inr (), ex_fs)
   \<and> matches ex_self ''sales_c.csv''
   \<and> merge_new_data_with_preprocessed_data iso_date iso_date ex_self ''sales_c.csv''
        original_cat_cols ex_fs = (Inl (ValueError ''Region''), ex_fs)
   \<and> process_files iso_date iso_date ex_self ex_fs = (Inl (ValueError ''Region''), ex_fs)"
proof -
  have 1: "listdir ex_fs (file_path ex_self)
     = Some ([''notes.txt'', ''sales_b.csv''] @ ''sales_c.csv'' #
             [''sales_a.csv'', ''sales_d.csv'', ''sales_e.csv''])"
    by (simp add: ex_defs DataProcessor_def)
  have 2: "merge_loop iso_date iso_date ex_self [''notes.txt'', ''sales_b.csv''] ex_fs
             = (Inr (), ex_fs)"
    by (simp add: eval_defs ex_defs)
  have 3: "matches ex_self ''sales_c.csv''"
    by (simp add: eval_defs ex_defs)
  have 4: "merge_new_data_with_preprocessed_data iso_date iso_date ex_self ''sales_c.csv''
        original_cat_cols ex_fs = (Inl (ValueError ''Region''), ex_fs)"
    by (simp add: eval_defs ex_defs)
  from process_files_aborts [OF 1 2 3 4] 1 2 3 4 show ?thesis by blast
qed

text \<open>
  C8, output of \<open>prepare_raw_csv\<close>. As stated the claim fails for \<open>unique_id\<close>: a
  null \<open>Client\<close> makes the joined string null.
\<close>

theorem prepare_raw_csv_null_key_counterexample:
  "prepare_raw_csv iso_date ex_null
     = Inr [\<lparr>ds = Some (2024, 1, 1), y = Some 5, unique_id = None,
             lClient = None, lWarehouse = Some ''W1'', lProduct = Some ''P1''\<rparr>]"
  by (simp add: eval_defs ex_defs)

text \<open>
  C8 as amended: for a table with the three identifier columns whose other columns
  are all read as dates by the cast, \<open>prepare_raw_csv\<close> returns a table with one row
  per input row and date column, no null in \<open>ds\<close>, and a null \<open>unique_id\<close> exactly
  in the rows with a null Client, Warehouse or Product. (The cast rejects the name
  \<open>unique_id\<close>.)
\<close>

theorem prepare_raw_csv_guarantee:
  assumes "set original_cat_cols \<subseteq> set (columns df)"
      and "\<forall>c\<in>set (columns df). c \<notin> set original_cat_cols \<longrightarrow> cast_date c \<noteq> None"
      and "cast_date ''unique_id'' = None"
  shows "\<exists>out. prepare_raw_csv cast_date df = Inr out
           \<and> length out
               = length (rows df) * length [c \<leftarrow> columns df. c \<notin> set original_cat_cols]
           \<and> (\<forall>r\<in>set out. ds r \<noteq> None)
           \<and> (\<forall>r\<in>set out. (unique_id r = None)
                 = (lClient r = None \<or> lWarehouse r = None \<or> lProduct r = None))"
proof -
  from assms(2,3) unique_id_not_cat have "''unique_id'' \<notin> set (columns df)" by blast
  then have vv: "value_vars df = [c \<leftarrow> columns df. c \<notin> set original_cat_cols]"
    by (rule value_vars_cat_cols)
  with assms(2) have ok: "\<forall>c\<in>set (value_vars df). cast_date c \<noteq> None" by simp
  from assms(1) have "set [''Client'', ''Warehouse'', ''Product''] \<subseteq> set (columns df)"
    unfolding original_cat_cols_def .
  from prepare_raw_csv_total [OF this ok] obtain out where
    out: "prepare_raw_csv cast_date df = Inr out" ..
  note eq = prepare_raw_csv_Inr(1) [OF out]
  have 1: "length out = length (rows df) * length [c \<leftarrow> columns df. c \<notin> set original_cat_cols]"
    unfolding eq vv [symmetric] by (simp add: sort_rows_def)
  have 2: "\<forall>r\<in>set out. ds r \<noteq> None"
    unfolding eq using ok by auto
  have 3: "\<forall>r\<in>set out. (unique_id r = None)
                 = (lClient r = None \<or> lWarehouse r = None \<or> lProduct r = None)"
    unfolding eq by (auto simp: unique_id_col_None)
  from out 1 2 3 show ?thesis by blast
qed

text \<open>
The witness for C8: the table of \<open>sales_a.csv\<close>.
\<close>

theorem prepare_raw_csv_guarantee_witness:
  "set original_cat_cols \<subseteq> set (columns ex_a)
   \<and> map iso_date [c \<leftarrow> columns ex_a. c \<notin> set original_cat_cols]
       = [Some (2024, 1, 1), Some (2024, 1, 2)]
   \<and> iso_date ''unique_id'' = None
   \<and> (\<exists>out. prepare_raw_csv iso_date ex_a = Inr out
           \<and> length out
               = length (rows ex_a) * length [c \<leftarrow> columns ex_a. c \<notin> set original_cat_cols]
           \<and> (\<forall>r\<in>set out. ds r \<noteq> None)
           \<and> (\<forall>r\<in>set out. (unique_id r = None)
                 = (lClient r = None \<or> lWarehouse r = None \<or> lProduct r = None)))"
proof -
  have 1: "set original_cat_cols \<subseteq> set (columns ex_a)"
    by (simp add: ex_a_def original_cat_cols_def)
  have 2: "map iso_date [c \<leftarrow> columns ex_a. c \<notin> set original_cat_cols]
             = [Some (2024, 1, 1), Some (2024, 1, 2)]"
    by (simp add: ex_a_def original_cat_cols_def ex_dates)
  have 3: "\<forall>c\<in>set (columns ex_a). c \<notin> set original_cat_cols \<longrightarrow> iso_date c \<noteq> None"
    by (simp add: ex_a_def original_cat_cols_def ex_dates)
  have 4: "iso_date ''unique_id'' = None" by (simp add: ex_dates)
  from prepare_raw_csv_guarantee [OF 1 3 4] 1 2 4 show ?thesis by (intro conjI)
qed

text \<open>
  C9, global date horizon. If the date \<open>D\<close> is stored for some entity, then after a
  merge every row with the date \<open>D\<close>, of whatever entity, occurs in the table exactly
  as often as before: the snapshot adds no row for \<open>D\<close>, not for an entity without a
  record for \<open>D\<close>, and not a row equal to a stored one.
\<close>

theorem global_date_horizon:
  assumes "read_parquet st (preprocessed_data_file_path self) = Inr old_df"
      and "Some D \<in> ds ` set old_df"
      and "merge_new_data_with_preprocessed_data strptime cast_date self f cat_cols st = (res, st')"
  shows "\<exists>new. read_parquet st' (preprocessed_data_file_path self) = Inr new
           \<and> (\<forall>x. ds x = Some D \<longrightarrow> count (mset new) x = count (mset old_df) x)"
proof -
  from merge_store [OF assms(1,3)] obtain new added where
    new: "read_parquet st' (preprocessed_data_file_path self) = Inr new"
    and ms: "mset new = mset old_df + mset added"
    and added: "\<forall>r\<in>set added. ds r \<noteq> None \<and> ds r \<notin> ds ` set old_df"
    by blast
  have "count (mset new) x = count (mset old_df) x" if "ds x = Some D" for x
  proof -
    from added assms(2) that have "x \<notin> set added" by auto
    then have "count (mset added) x = 0" by (simp add: count_eq_zero_iff)
    with ms show ?thesis by simp
  qed
  with new show ?thesis by blast
qed

text \<open>
  The witness for C9: 2024-01-01 is stored for \<open>C1/W1/P1\<close> only, and \<open>sales_a.csv\<close>
  has it for \<open>C2/W1/P1\<close> too.
\<close>

theorem global_date_horizon_witness:
  "read_parquet ex_fs (preprocessed_data_file_path ex_self) = Inr ex_old
   \<and> Some (2024, 1, 1) \<in> ds ` set ex_old
   \<and> merge_new_data_with_preprocessed_data iso_date iso_date ex_self ''sales_a.csv''
       original_cat_cols ex_fs
     = (Inr (Successfully_merged ''sales_a.csv''),
        write_parquet ex_merged ''data/preprocessed/sales.parquet'' ex_fs)
   \<and> (\<exists>new. read_parquet (write_parquet ex_merged ''data/preprocessed/sales.parquet'' ex_fs)
               (preprocessed_data_file_path ex_self) = Inr new
           \<and> (\<forall>x. ds x = Some (2024, 1, 1) \<longrightarrow> count (mset new) x = count (mset ex_old) x))"
proof -
  have 1: "Some (2024, 1, 1) \<in> ds ` set ex_old" by (simp add: ex_old_def ex_record_def)
  from global_date_horizon [OF ex_read_old 1 ex_merge_a] ex_read_old 1 ex_merge_a
  show ?thesis by (intro conjI)
qed

text \<open>
  C10, growth of the date set. As stated, for every merge that writes, the claim
  fails: the merge of \<open>sales_d.csv\<close>, which has the date column 2024-01-03 and no
  row, writes the table it read, and 2024-01-03 is not among its dates.
\<close>

theorem date_set_growth_counterexample:
  "read_parquet ex_fs (preprocessed_data_file_path ex_self) = Inr ex_old
   \<and> strptime_all iso_date [col \<leftarrow> columns ex_d. col \<notin> set original_cat_cols]
       = Inr [(2024, 1, 3)]
   \<and> merge_new_data_with_preprocessed_data iso_date iso_date ex_self ''sales_d.csv''
        original_cat_cols ex_fs
      = (Inr (Successfully_merged ''sales_d.csv''),
         write_parquet ex_old ''data/preprocessed/sales.parquet'' ex_fs)
   \<and> read_parquet (write_parquet ex_old ''data/preprocessed/sales.parquet'' ex_fs)
        (preprocessed_data_file_path ex_self) = Inr ex_old
   \<and> map ds ex_old = [Some (2024, 1, 1)]"
  by (simp add: eval_defs ex_defs)

text \<open>
  C10 as amended: no merge removes a date from the persisted table, and a merge that
  writes the rows of a snapshot with at least one row, whose column names the cast
  reads as \<open>strptime\<close> does, leaves the table with the stored dates and the parsed
  dates of the snapshot's columns, and no other.
\<close>

theorem date_set_growth:
  assumes "read_parquet st (preprocessed_data_file_path self) = Inr old_df"
      and "merge_new_data_with_preprocessed_data strptime cast_date self f original_cat_cols st
             = (res, st')"
  shows "\<exists>new. read_parquet st' (preprocessed_data_file_path self) = Inr new
           \<and> ds ` set old_df \<subseteq> ds ` set new
           \<and> (\<forall>new_df dts.
                 res = Inr (Successfully_merged f)
               \<and> csv_files st (''data/raw/'' @ f) = Some new_df
               \<and> strptime_all strptime [col \<leftarrow> columns new_df. col \<notin> set original_cat_cols] = Inr dts
               \<and> rows new_df \<noteq> []
               \<and> strptime ''unique_id'' = None
               \<and> (\<forall>c\<in>set (columns new_df). strptime c \<noteq> None \<longrightarrow> cast_date c = strptime c)
               \<longrightarrow> ds ` set new = ds ` set old_df \<union> Some ` set dts)"
proof -
  from merge_cases [OF assms(2)] show ?thesis
  proof (elim disjE exE conjE)
    fix e assume "res = Inl e" "st' = st"
    with assms(1) show ?thesis by simp
  next
    assume "res = Inr All_dates_are_overlapping" "st' = st"
    with assms(1) show ?thesis by simp
  next
    fix df old dts long
    assume rc: "read_csv st (''data/raw/'' @ f) = Inr df"
       and rp: "read_parquet st (preprocessed_data_file_path self) = Inr old"
       and dts: "strptime_all strptime [col \<leftarrow> columns df. col \<notin> set original_cat_cols] = Inr dts"
       and long: "prepare_raw_csv cast_date df = Inr long"
       and st': "st' = write_parquet
                   (sort_rows (old @ [r \<leftarrow> long. is_in r [col \<leftarrow> dts. Some col \<notin> ds ` set old]]))
                   (preprocessed_data_file_path self) st"
    from rp assms(1) have old: "old = old_df" by simp
    let ?new = "sort_rows (old_df @ [r \<leftarrow> long. is_in r [col \<leftarrow> dts. Some col \<notin> ds ` set old_df]])"
    have 1: "read_parquet st' (preprocessed_data_file_path self) = Inr ?new"
      unfolding st' old by (simp add: read_parquet_Inr)
    have 2: "ds ` set old_df \<subseteq> ds ` set ?new" by (simp add: image_Un)
    have 3: "ds ` set ?new = ds ` set old_df \<union> Some ` set dts'"
      if "csv_files st (''data/raw/'' @ f) = Some new_df"
        and "strptime_all strptime [col \<leftarrow> columns new_df. col \<notin> set original_cat_cols] = Inr dts'"
        and "rows new_df \<noteq> []" and "strptime ''unique_id'' = None"
        and "\<forall>c\<in>set (columns new_df). strptime c \<noteq> None \<longrightarrow> cast_date c = strptime c"
      for new_df dts'
    proof -
      from read_csv_Inr [OF rc] that(1) have df: "df = new_df" by simp
      with dts that(2) have "dts' = dts" by simp
      from long dts that(3,4,5) show ?thesis
        unfolding df \<open>dts' = dts\<close> by (rule written_dates)
    qed
    show ?thesis
    proof (intro exI conjI allI impI)
      show "read_parquet st' (preprocessed_data_file_path self) = Inr ?new" by (rule 1)
      show "ds ` set old_df \<subseteq> ds ` set ?new" by (rule 2)
      fix new_df dts'
      assume "res = Inr (Successfully_merged f)
               \<and> csv_files st (''data/raw/'' @ f) = Some new_df
               \<and> strptime_all strptime [col \<leftarrow> columns new_df. col \<notin> set original_cat_cols] = Inr dts'
               \<and> rows new_df \<noteq> []
               \<and> strptime ''unique_id'' = None
               \<and> (\<forall>c\<in>set (columns new_df). strptime c \<noteq> None \<longrightarrow> cast_date c = strptime c)"
      then show "ds ` set ?new = ds ` set old_df \<union> Some ` set dts'"
        by (elim conjE) (rule 3)
    qed
  qed
qed

text \<open>
The witness for C10: \<open>sales_a.csv\<close> adds 2024-01-02 to 2024-01-01.
\<close>

theorem date_set_growth_witness:
  "read_parquet ex_fs (preprocessed_data_file_path ex_self) = Inr ex_old
   \<and> merge_new_data_with_preprocessed_data iso_date iso_date ex_self ''sales_a.csv''
       original_cat_cols ex_fs
     = (Inr (Successfully_merged ''sales_a.csv''),
        write_parquet ex_merged ''data/preprocessed/sales.parquet'' ex_fs)
   \<and> csv_files ex_fs (''data/raw/'' @ ''sales_a.csv'') = Some ex_a
   \<and> strptime_all iso_date [col \<leftarrow> columns ex_a. col \<notin> set original_cat_cols]
       = Inr [(2024, 1, 1), (2024, 1, 2)]
   \<and> rows ex_a \<noteq> []
   \<and> iso_date ''unique_id'' = None
   \<and> (\<exists>new. read_parquet (write_parquet ex_merged ''data/preprocessed/sales.parquet'' ex_fs)
               (preprocessed_data_file_path ex_self) = Inr new
           \<and> ds ` set ex_old \<subseteq> ds ` set new
           \<and> ds ` set new = ds ` set ex_old \<union> Some ` set [(2024, 1, 1), (2024, 1, 2)])"
proof -
  have 1: "rows ex_a \<noteq> []" by (simp add: ex_a_def)
  have 2: "iso_date ''unique_id'' = None" by (simp add: ex_dates)
  have 3: "\<forall>c\<in>set (columns ex_a). iso_date c \<noteq> None \<longrightarrow> iso_date c = iso_date c"
    by simp
  from date_set_growth [OF ex_read_old ex_merge_a] obtain new where
    H: "read_parquet (write_parquet ex_merged ''data/preprocessed/sales.parquet'' ex_fs)
          (preprocessed_data_file_path ex_self) = Inr new
        \<and> ds ` set ex_old \<subseteq> ds ` set new
        \<and> (\<forall>new_df dts.
               (Inr (Successfully_merged ''sales_a.csv'') :: error + notice)
                 = Inr (Successfully_merged ''sales_a.csv'')
               \<and> csv_files ex_fs (''data/raw/'' @ ''sales_a.csv'') = Some new_df
               \<and> strptime_all iso_date [col \<leftarrow> columns new_df. col \<notin> set original_cat_cols] = Inr dts
               \<and> rows new_df \<noteq> []
               \<and> iso_date ''unique_id'' = None
               \<and> (\<forall>c\<in>set (columns new_df). iso_date c \<noteq> None \<longrightarrow> iso_date c = iso_date c)
               \<longrightarrow> ds ` set new = ds ` set ex_old \<union> Some ` set dts)" ..
  note new = H [THEN conjunct1]
   and sub = H [THEN conjunct2, THEN conjunct1]
   and eq = H [THEN conjunct2, THEN conjunct2]
  have "ds ` set new = ds ` set ex_old \<union> Some ` set [(2024, 1, 1), (2024, 1, 2)]"
    by (rule eq [THEN spec, THEN spec, THEN mp], intro conjI, rule refl, rule ex_csv_a,
        rule ex_strptime_a, rule 1, rule 2, rule 3)
  with new sub have "\<exists>new. read_parquet (write_parquet ex_merged ''data/preprocessed/sales.parquet'' ex_fs)
               (preprocessed_data_file_path ex_self) = Inr new
           \<and> ds ` set ex_old \<subseteq> ds ` set new
           \<and> ds ` set new = ds ` set ex_old \<union> Some ` set [(2024, 1, 1), (2024, 1, 2)]"
    by (intro exI conjI)
  with ex_read_old ex_merge_a ex_csv_a ex_strptime_a 1 2 show ?thesis by (intro conjI)
qed

end
